theory Spec2Isabelle
  imports Complex_Main "HOL-Library.Sublist"
begin

section \<open>Python string primitives used by the extractor\<close>

text \<open>
  Strings are lists of characters. The model covers ASCII text: \<open>str.lower\<close> maps
  \<open>A\<close>..\<open>Z\<close> to \<open>a\<close>..\<open>z\<close>, and the whitespace of \<open>str.split()\<close> and
  \<open>str.strip()\<close> is the ASCII whitespace of Python (codes 9 to 13, 28 to 31 and 32).
\<close>

definition is_space :: "char \<Rightarrow> bool" where
  "is_space c = (let n = (of_char c :: nat) in (9 \<le> n \<and> n \<le> 13) \<or> (28 \<le> n \<and> n \<le> 32))"

definition lower_char :: "char \<Rightarrow> char" where
  "lower_char c = (let n = (of_char c :: nat) in if 65 \<le> n \<and> n \<le> 90 then char_of (n + 32) else c)"

definition lower :: "string \<Rightarrow> string" where
  "lower s = map lower_char s"

definition strip :: "string \<Rightarrow> string" where
  "strip s = rev (dropWhile is_space (rev (dropWhile is_space s)))"

text \<open>\<open>s.split()\<close>: the maximal runs of non-whitespace characters, in order.\<close>

fun split_ws_from :: "string \<Rightarrow> string \<Rightarrow> string list" where
  "split_ws_from cur [] = (if cur = [] then [] else [cur])"
| "split_ws_from cur (c # cs) =
     (if is_space c then (if cur = [] then split_ws_from [] cs else cur # split_ws_from [] cs)
      else split_ws_from (cur @ [c]) cs)"

definition split_ws :: "string \<Rightarrow> string list" where
  "split_ws s = split_ws_from [] s"

text \<open>\<open>s.split(sep)\<close> and \<open>re.split\<close> on a character class: every separator cuts,
  empty pieces are kept, and the result is never empty.\<close>

fun split_on_from :: "(char \<Rightarrow> bool) \<Rightarrow> string \<Rightarrow> string \<Rightarrow> string list" where
  "split_on_from sep cur [] = [cur]"
| "split_on_from sep cur (c # cs) =
     (if sep c then cur # split_on_from sep [] cs else split_on_from sep (cur @ [c]) cs)"

definition split_on :: "(char \<Rightarrow> bool) \<Rightarrow> string \<Rightarrow> string list" where
  "split_on sep s = split_on_from sep [] s"

text \<open>\<open>a in b\<close> on strings: \<open>a\<close> occurs in \<open>b\<close> as a contiguous block.\<close>

fun is_substring :: "string \<Rightarrow> string \<Rightarrow> bool" where
  "is_substring a [] = (a = [])"
| "is_substring a (c # cs) = (take (length a) (c # cs) = a \<or> is_substring a cs)"

text \<open>Truthiness of an optional string: \<open>None\<close> and the empty string are falsy.\<close>

definition truthy :: "string option \<Rightarrow> bool" where
  "truthy v = (case v of None \<Rightarrow> False | Some s \<Rightarrow> s \<noteq> [])"

text \<open>\<open>d.get(key, '')\<close> for a key holding a string.\<close>

definition get_str :: "string option \<Rightarrow> string" where
  "get_str v = (case v of None \<Rightarrow> [] | Some s \<Rightarrow> s)"

text \<open>\<open>d.get(key, [])\<close> for a key holding a list.\<close>

definition get_list :: "'a list option \<Rightarrow> 'a list" where
  "get_list v = (case v of None \<Rightarrow> [] | Some xs \<Rightarrow> xs)"

datatype error = ValueError | IndexError | TypeError | AttributeError

section \<open>Raw patent records\<close>

text \<open>
  A raw record is the dictionary an adapter produces. Each key is optional
  (\<open>None\<close>: the key is missing); a key that is present holds a value of the type the
  PatentsView response documents.
\<close>

record inventor =
  inventor_name_first :: "string option"
  inventor_name_last :: "string option"

record assignee =
  assignee_organization :: "string option"

record raw_patent =
  patent_id :: "string option"
  patent_title :: "string option"
  patent_abstract :: "string option"
  patent_date :: "string option"
  inventors :: "inventor list option"
  assignees :: "assignee list option"
  source :: "string option"

section \<open>The deduplicator\<close>

text \<open>
  \<open>_remove_duplicates\<close>: one pass over the records with the set \<open>seen\<close> of identifiers
  and the list \<open>unique_patents\<close> built so far. A record is appended when its
  \<open>patent_id\<close> is truthy and not yet in \<open>seen\<close>.
\<close>

fun remove_duplicates_loop ::
  "string set \<Rightarrow> raw_patent list \<Rightarrow> raw_patent list \<Rightarrow> raw_patent list" where
  "remove_duplicates_loop seen unique_patents [] = unique_patents"
| "remove_duplicates_loop seen unique_patents (patent # patents) =
     (let patent_num = patent_id patent in
      if truthy patent_num \<and> get_str patent_num \<notin> seen
      then remove_duplicates_loop (insert (get_str patent_num) seen) (unique_patents @ [patent]) patents
      else remove_duplicates_loop seen unique_patents patents)"

definition remove_duplicates :: "raw_patent list \<Rightarrow> raw_patent list" where
  "remove_duplicates patents = remove_duplicates_loop {} [] patents"

text \<open>A record used in the concrete examples: only identifier and title are set.\<close>

definition sample_patent :: "string option \<Rightarrow> string option \<Rightarrow> raw_patent" where
  "sample_patent num ttl =
     \<lparr>patent_id = num, patent_title = ttl, patent_abstract = None, patent_date = None,
      inventors = None, assignees = None, source = None\<rparr>"


section \<open>The identity matcher and the two adapters\<close>

text \<open>Sequencing of computations that may raise: the first exception ends the run.\<close>

definition and_then :: "error + 'a \<Rightarrow> ('a \<Rightarrow> error + 'b) \<Rightarrow> error + 'b" where
  "and_then m f = (case m of Inl e \<Rightarrow> Inl e | Inr x \<Rightarrow> f x)"

text \<open>
  \<open>target_first\<close> and \<open>target_last\<close>, computed alike in both adapters from
  \<open>inventor_name.lower().split()\<close>. The first is \<open>parts[0]\<close> (or the empty string);
  the second is \<open>parts[-1]\<close> when there are two tokens or more and \<open>parts[0]\<close>
  otherwise, which raises IndexError on a name without any token.
\<close>

definition name_targets :: "string \<Rightarrow> error + (string \<times> string)" where
  "name_targets inventor_name =
     (let inventor_parts = split_ws (lower inventor_name);
          target_first = (if length inventor_parts > 0 then inventor_parts ! 0 else [])
      in if length inventor_parts > 1 then Inr (target_first, last inventor_parts)
         else if length inventor_parts > 0 then Inr (target_first, inventor_parts ! 0)
         else Inl IndexError)"

text \<open>The assignee loop of both adapters: the first organization containing the
  lowercased filter ends the loop with a match.\<close>

fun assignee_loop :: "string \<Rightarrow> assignee list \<Rightarrow> bool" where
  "assignee_loop assignee_name [] = False"
| "assignee_loop assignee_name (a # rest) =
     (let org_name = lower (get_str (assignee_organization a)) in
      if is_substring (lower assignee_name) org_name then True
      else assignee_loop assignee_name rest)"

text \<open>The inventor loop of \<open>_search_patents_view\<close>: names are lowercased and stripped
  before the comparison.\<close>

fun pv_inventor_loop :: "string \<Rightarrow> string \<Rightarrow> inventor list \<Rightarrow> bool" where
  "pv_inventor_loop target_first target_last [] = False"
| "pv_inventor_loop target_first target_last (entry # rest) =
     (let first_name = strip (lower (get_str (inventor_name_first entry)));
          last_name = strip (lower (get_str (inventor_name_last entry)))
      in if first_name = target_first \<and> last_name = target_last then True
         else pv_inventor_loop target_first target_last rest)"

text \<open>One pass of the filter loop of \<open>_search_patents_view\<close> over a record: with a
  truthy assignee filter and no matching assignee the record is skipped
  (\<open>continue\<close>); otherwise it is kept when an inventor matches.\<close>

definition pv_keep :: "string option \<Rightarrow> string \<Rightarrow> string \<Rightarrow> raw_patent \<Rightarrow> bool" where
  "pv_keep assignee_name target_first target_last patent =
     (if truthy assignee_name \<and>
         \<not> assignee_loop (get_str assignee_name) (get_list (assignees patent))
      then False
      else pv_inventor_loop target_first target_last (get_list (inventors patent)))"

text \<open>
  The network is a parameter: what each of the two requests returns.

  The PatentsView request has three outcomes. \<open>RequestFailed\<close>: the request raised a
  \<open>RequestException\<close> (transport failure, timeout, error status), which the adapter
  catches. \<open>Patents\<close>: the decoded response holds under \<open>patents\<close> a list of
  records of the typed form above. \<open>Escapes\<close>: the decoded response is not of that
  form and the \<open>try\<close> block raises an exception that is not a \<open>RequestException\<close>,
  for instance AttributeError when the filter loop calls \<open>lower\<close> on a name or an
  organization that is null and TypeError when it iterates a list that is null; the
  adapter has no handler for it and the exception leaves the search.

  For the Google request \<open>None\<close> stands for a request that raised. A result element of
  the Google page is given by the pieces that the HTML parser and the regular expressions
  hand to \<open>_extract_patent_from_result\<close>.
\<close>

datatype patentsview_response =
    RequestFailed
  | Patents "raw_patent list"
  | Escapes error

record search_result =
  title_elem_text :: string
  href_number :: "string option"
  text_number :: "string option"
  desc_elem_text :: "string option"
  inventor_section_text :: "string option"
  assignee_section_text :: "string option"
  date_section_text :: "string option"

record network =
  patentsview_reply :: patentsview_response
  google_reply :: "search_result list option"

text \<open>The requests issued, in order. The Google request is recorded by its query
  string (before URL encoding).\<close>

datatype event =
    PatentsViewGet string string "string option"
  | GooglePatentsGet string

text \<open>\<open>_search_patents_view\<close>. The name is split before the \<open>try\<close> block, so the
  IndexError of an empty name is raised before the request. Inside the block only a
  \<open>RequestException\<close> is caught; every other exception raised there leaves the
  function after the request has been issued.\<close>

definition search_patents_view ::
  "string \<Rightarrow> string option \<Rightarrow> network \<Rightarrow> event list \<times> (error + raw_patent list)" where
  "search_patents_view inventor_name assignee_name net =
     (let name_parts = split_ws inventor_name in
      if length name_parts = 0 then ([], Inl IndexError)
      else
        let first_name = name_parts ! 0;
            last_name = (if length name_parts > 1 then last name_parts else name_parts ! 0);
            request = PatentsViewGet first_name last_name
                        (if truthy assignee_name then assignee_name else None)
        in case patentsview_reply net of
             RequestFailed \<Rightarrow> ([request], Inr [])
           | Escapes e \<Rightarrow> ([request], Inl e)
           | Patents patents \<Rightarrow>
               (case name_targets inventor_name of
                  Inl e \<Rightarrow> ([request], Inl e)
                | Inr (target_first, target_last) \<Rightarrow>
                    ([request],
                     Inr (remove_duplicates
                            (filter (pv_keep assignee_name target_first target_last) patents)))))"

text \<open>The inventor names of a Google result: the text is cut at commas and semicolons,
  each piece is stripped, and a piece of two words or more gives first and last name.\<close>

definition parse_inventors :: "string \<Rightarrow> inventor list" where
  "parse_inventors inventor_text =
     concat (map (\<lambda>piece.
        let name = strip piece; parts = split_ws name in
        if name \<noteq> [] \<and> length parts \<ge> 2
        then [\<lparr>inventor_name_first = Some (parts ! 0), inventor_name_last = Some (last parts)\<rparr>]
        else [])
      (split_on (\<lambda>c. c = CHR '','' \<or> c = CHR '';'') inventor_text))"

text \<open>The inventor loop of \<open>_extract_patent_from_result\<close>: names are lowercased only.\<close>

fun google_inventor_loop :: "string \<Rightarrow> string \<Rightarrow> inventor list \<Rightarrow> bool" where
  "google_inventor_loop target_first target_last [] = False"
| "google_inventor_loop target_first target_last (entry # rest) =
     (let first = lower (get_str (inventor_name_first entry));
          last_name = lower (get_str (inventor_name_last entry))
      in if first = target_first \<and> last_name = target_last then True
         else google_inventor_loop target_first target_last rest)"

definition extract_patent_from_result ::
  "search_result \<Rightarrow> string \<Rightarrow> string \<Rightarrow> string option \<Rightarrow> raw_patent option" where
  "extract_patent_from_result result target_first target_last assignee_name =
     (let title = title_elem_text result;
          patent_num = (if truthy (href_number result) then get_str (href_number result)
                        else get_str (text_number result));
          abstract = take 2000 (get_str (desc_elem_text result));
          inventors = (case inventor_section_text result of None \<Rightarrow> [] | Some t \<Rightarrow> parse_inventors t);
          assignees = (if truthy (assignee_section_text result)
                       then [\<lparr>assignee_organization = assignee_section_text result\<rparr>] else []);
          date_text = get_str (date_section_text result);
          inventor_match = google_inventor_loop target_first target_last inventors;
          assignee_match = (if truthy assignee_name
                            then assignee_loop (get_str assignee_name) assignees else True)
      in if title \<noteq> [] \<and> patent_num \<noteq> [] \<and> inventor_match \<and> assignee_match
         then Some \<lparr>patent_id = Some patent_num, patent_title = Some title,
                    patent_abstract = Some abstract, patent_date = Some date_text,
                    inventors = Some inventors, assignees = Some assignees,
                    source = Some ''google_patents''\<rparr>
         else None)"

definition google_query :: "string \<Rightarrow> string option \<Rightarrow> string" where
  "google_query inventor_name assignee_name =
     ''inventor:\"'' @ inventor_name @ ''\"'' @
     (if truthy assignee_name then '' assignee:\"'' @ get_str assignee_name @ ''\"'' else [])"

text \<open>\<open>_search_google_patents\<close>: the request comes first; every exception after it,
  the IndexError of an empty name included, is caught and gives the empty list.\<close>

definition search_google_patents ::
  "string \<Rightarrow> string option \<Rightarrow> network \<Rightarrow> event list \<times> raw_patent list" where
  "search_google_patents inventor_name assignee_name net =
     ([GooglePatentsGet (google_query inventor_name assignee_name)],
      (case google_reply net of
         None \<Rightarrow> []
       | Some results \<Rightarrow>
           (case name_targets inventor_name of
              Inl e \<Rightarrow> []
            | Inr (target_first, target_last) \<Rightarrow>
                List.map_filter
                  (\<lambda>result. extract_patent_from_result result target_first target_last assignee_name)
                  (take 20 results))))"

text \<open>\<open>search_patents_by_inventor\<close>: PatentsView when an API key is set, then Google,
  then the deduplicator over the concatenation.\<close>

definition search_patents_by_inventor ::
  "string option \<Rightarrow> string \<Rightarrow> string option \<Rightarrow> network \<Rightarrow> event list \<times> (error + raw_patent list)" where
  "search_patents_by_inventor api_key inventor_name assignee_name net =
     (let (events1, found) =
            (if truthy api_key then search_patents_view inventor_name assignee_name net
             else ([], Inr []))
      in case found of
           Inl e \<Rightarrow> (events1, Inl e)
         | Inr patents \<Rightarrow>
             (let (events2, google_patents) = search_google_patents inventor_name assignee_name net
              in (events1 @ events2, Inr (remove_duplicates (patents @ google_patents)))))"

section \<open>The normalizer\<close>

text \<open>
  \<open>int(s)\<close> on a string: surrounding whitespace is dropped, one sign is allowed, and
  the digits may be grouped by single underscores. Anything else raises ValueError.
\<close>

definition is_digit :: "char \<Rightarrow> bool" where
  "is_digit c = (let n = (of_char c :: nat) in 48 \<le> n \<and> n \<le> 57)"

definition digit_value :: "char \<Rightarrow> int" where
  "digit_value c = int (of_char c) - 48"

fun int_digits :: "bool \<Rightarrow> int \<Rightarrow> string \<Rightarrow> int option" where
  "int_digits after_digit acc [] = (if after_digit then Some acc else None)"
| "int_digits after_digit acc (c # cs) =
     (if is_digit c then int_digits True (10 * acc + digit_value c) cs
      else if c = CHR ''_'' \<and> after_digit then int_digits False acc cs
      else None)"

definition py_int :: "string \<Rightarrow> error + int" where
  "py_int s =
     (case strip s of
        [] \<Rightarrow> Inl ValueError
      | c # cs \<Rightarrow>
          if c = CHR ''-'' then
            (case int_digits False 0 cs of None \<Rightarrow> Inl ValueError | Some n \<Rightarrow> Inr (- n))
          else if c = CHR ''+'' then
            (case int_digits False 0 cs of None \<Rightarrow> Inl ValueError | Some n \<Rightarrow> Inr n)
          else
            (case int_digits False 0 (c # cs) of None \<Rightarrow> Inl ValueError | Some n \<Rightarrow> Inr n))"

text \<open>
  The values of a canonical record. A dictionary is an association list in insertion
  order; \<open>PNone\<close> is Python's \<open>None\<close> stored under a key, which is not the same as
  the key being absent.
\<close>

datatype pyval =
    PNone
  | PInt int
  | PStr string
  | PList "pyval list"
  | PDict "(string \<times> pyval) list"

type_synonym pydict = "(string \<times> pyval) list"

definition dict_get :: "pydict \<Rightarrow> string \<Rightarrow> pyval \<Rightarrow> pyval" where
  "dict_get d key dflt = (case map_of d key of None \<Rightarrow> dflt | Some v \<Rightarrow> v)"

definition date_segments :: "raw_patent \<Rightarrow> string list" where
  "date_segments patent = split_on (\<lambda>c. c = CHR ''-'') (get_str (patent_date patent))"

text \<open>The \<open>date\<close> entry: three keys, each an integer or \<open>None\<close>, evaluated in the
  order year, month, day.\<close>

definition linkedin_date :: "raw_patent \<Rightarrow> error + pyval" where
  "linkedin_date patent =
     and_then (if truthy (patent_date patent)
               then and_then (py_int (date_segments patent ! 0)) (\<lambda>n. Inr (PInt n))
               else Inr PNone) (\<lambda>year.
     and_then (if length (date_segments patent) > 1
               then and_then (py_int (date_segments patent ! 1)) (\<lambda>n. Inr (PInt n))
               else Inr PNone) (\<lambda>month.
     and_then (if length (date_segments patent) > 2
               then and_then (py_int (date_segments patent ! 2)) (\<lambda>n. Inr (PInt n))
               else Inr PNone) (\<lambda>day.
     Inr (PDict [(''year'', year), (''month'', month), (''day'', day)]))))"

definition inventor_display :: "inventor \<Rightarrow> pyval" where
  "inventor_display entry =
     PDict [(''name'', PStr (strip (get_str (inventor_name_first entry) @ '' '' @
                                     get_str (inventor_name_last entry))))]"

text \<open>One iteration of the loop of \<open>format_for_linkedin\<close>: the dictionary literal, the
  \<open>assignees\<close> key added when the raw list is non-empty, and the removal of the
  top-level entries whose value is \<open>None\<close>.\<close>

definition format_patent :: "raw_patent \<Rightarrow> error + pydict" where
  "format_patent patent =
     and_then (linkedin_date patent) (\<lambda>date.
       let linkedin_patent =
             [(''title'', PStr (get_str (patent_title patent))),
              (''summary'', PStr (if truthy (patent_abstract patent)
                                  then take 2000 (get_str (patent_abstract patent)) else [])),
              (''number'', PStr (get_str (patent_id patent))),
              (''status'', PStr ''granted''),
              (''office'', PDict [(''name'', PStr ''United States Patent and Trademark Office (USPTO)'')]),
              (''inventors'', PList (map inventor_display (get_list (inventors patent)))),
              (''date'', date),
              (''url'', if truthy (patent_id patent)
                        then PStr (''https://patents.google.com/patent/US'' @ get_str (patent_id patent))
                        else PNone)];
           with_assignees =
             (if get_list (assignees patent) \<noteq> []
              then linkedin_patent @
                   [(''assignees'',
                     PList (map (\<lambda>a. PDict [(''name'', PStr (get_str (assignee_organization a)))])
                              (filter (\<lambda>a. truthy (assignee_organization a))
                                 (get_list (assignees patent)))))]
              else linkedin_patent)
       in Inr (filter (\<lambda>(k, v). v \<noteq> PNone) with_assignees))"

fun format_for_linkedin :: "raw_patent list \<Rightarrow> error + pydict list" where
  "format_for_linkedin [] = Inr []"
| "format_for_linkedin (patent # patents) =
     (case format_patent patent of
        Inl e \<Rightarrow> Inl e
      | Inr linkedin_patent \<Rightarrow>
          (case format_for_linkedin patents of
             Inl e \<Rightarrow> Inl e
           | Inr linkedin_patents \<Rightarrow> Inr (linkedin_patent # linkedin_patents)))"

section \<open>The portfolio analyzer\<close>

text \<open>Truthiness of a value, and \<open>int(v)\<close>: an integer is returned as it is, a
  string is parsed, every other value raises TypeError.\<close>

fun py_truthy :: "pyval \<Rightarrow> bool" where
  "py_truthy PNone = False"
| "py_truthy (PInt n) = (n \<noteq> 0)"
| "py_truthy (PStr s) = (s \<noteq> [])"
| "py_truthy (PList xs) = (xs \<noteq> [])"
| "py_truthy (PDict d) = (d \<noteq> [])"

fun int_of :: "pyval \<Rightarrow> error + int" where
  "int_of (PInt n) = Inr n"
| "int_of (PStr s) = py_int s"
| "int_of v = Inl TypeError"

text \<open>The first loop of \<open>_print_portfolio_summary\<close>: a record with a truthy
  \<open>number\<close> whose \<open>date\<close> is a dictionary with a truthy \<open>year\<close> appends
  \<open>int(year)\<close> to \<open>years\<close>.\<close>

definition year_of :: "pydict \<Rightarrow> error + int list" where
  "year_of patent =
     (let patent_num = dict_get patent ''number'' (PStr []) in
      if py_truthy patent_num then
        (case dict_get patent ''date'' (PDict []) of
           PDict date_obj \<Rightarrow>
             if py_truthy (dict_get date_obj ''year'' PNone)
             then and_then (int_of (dict_get date_obj ''year'' PNone)) (\<lambda>y. Inr [y])
             else Inr []
         | _ \<Rightarrow> Inr [])
      else Inr [])"

fun portfolio_years :: "pydict list \<Rightarrow> error + int list" where
  "portfolio_years [] = Inr []"
| "portfolio_years (patent # patents) =
     (case year_of patent of
        Inl e \<Rightarrow> Inl e
      | Inr ys \<Rightarrow>
          (case portfolio_years patents of
             Inl e \<Rightarrow> Inl e
           | Inr years \<Rightarrow> Inr (ys @ years)))"

definition patent_nums :: "pydict list \<Rightarrow> pyval list" where
  "patent_nums patents =
     filter py_truthy (map (\<lambda>patent. dict_get patent ''number'' (PStr [])) patents)"

text \<open>The category loop lowercases every title; a title that is not a string has no
  \<open>lower\<close> and raises AttributeError. The category counts themselves are printed and
  take no part in the rate.\<close>

fun title_lower :: "pyval \<Rightarrow> error + string" where
  "title_lower (PStr s) = Inr (lower s)"
| "title_lower v = Inl AttributeError"

fun titles_lowered :: "pydict list \<Rightarrow> error + string list" where
  "titles_lowered [] = Inr []"
| "titles_lowered (patent # patents) =
     (case title_lower (dict_get patent ''title'' (PStr [])) of
        Inl e \<Rightarrow> Inl e
      | Inr t \<Rightarrow>
          (case titles_lowered patents of
             Inl e \<Rightarrow> Inl e
           | Inr ts \<Rightarrow> Inr (t # ts)))"

text \<open>The key of the minimum and maximum over the patent numbers:
  \<open>int(''.join(filter(str.isdigit, x)))\<close>. Iterating a string gives its characters,
  a list its elements, a dictionary its keys; \<open>str.isdigit\<close> rejects a value that is
  not a string with TypeError, and an integer cannot be iterated.\<close>

definition isdigit_str :: "string \<Rightarrow> bool" where
  "isdigit_str t = (t \<noteq> [] \<and> list_all is_digit t)"

fun str_items :: "pyval list \<Rightarrow> error + string list" where
  "str_items [] = Inr []"
| "str_items (PStr t # vs) =
     (case str_items vs of Inl e \<Rightarrow> Inl e
      | Inr ts \<Rightarrow> Inr (if isdigit_str t then t # ts else ts))"
| "str_items (v # vs) = Inl TypeError"

fun digit_items :: "pyval \<Rightarrow> error + string list" where
  "digit_items (PStr s) = Inr (map (\<lambda>c. [c]) (filter is_digit s))"
| "digit_items (PList xs) = str_items xs"
| "digit_items (PDict d) = Inr (filter isdigit_str (map fst d))"
| "digit_items v = Inl TypeError"

definition number_key :: "pyval \<Rightarrow> error + int" where
  "number_key x = and_then (digit_items x) (\<lambda>items. py_int (concat items))"

fun number_keys :: "pyval list \<Rightarrow> error + int list" where
  "number_keys [] = Inr []"
| "number_keys (x # xs) =
     (case number_key x of
        Inl e \<Rightarrow> Inl e
      | Inr k \<Rightarrow> (case number_keys xs of Inl e \<Rightarrow> Inl e | Inr ks \<Rightarrow> Inr (k # ks)))"

text \<open>
  The innovation rate that \<open>_print_portfolio_summary\<close> prints, \<open>None\<close> when it
  prints none. The quotient is kept exact; Python's division rounds it to the nearest
  double and the line shows one decimal.
\<close>

definition patents_per_year :: "pydict list \<Rightarrow> error + rat option" where
  "patents_per_year patents =
     (if patents = [] then Inr None
      else
        and_then (portfolio_years patents) (\<lambda>years.
        and_then (titles_lowered patents) (\<lambda>titles.
        and_then (if patent_nums patents \<noteq> [] then number_keys (patent_nums patents) else Inr [])
          (\<lambda>keys.
            if length years > 1 then
              (let year_range = Max (set years) - Min (set years) + 1
               in Inr (Some (of_nat (length patents) / of_int year_range)))
            else Inr None))))"

text \<open>
  The records the analyzer is proved on: the title, when present, is a string; the
  number, when present, is a string that is empty or holds a digit; a date that is a
  dictionary holds under \<open>year\<close> an integer or \<open>None\<close>, or has no such key. The
  normalizer builds such records from raw records whose identifier holds a digit.
\<close>

definition canonical_ok :: "pydict \<Rightarrow> bool" where
  "canonical_ok c =
     ((case map_of c ''title'' of None \<Rightarrow> True | Some (PStr t) \<Rightarrow> True | Some v \<Rightarrow> False) \<and>
      (case map_of c ''number'' of
         None \<Rightarrow> True | Some (PStr s) \<Rightarrow> s = [] \<or> list_ex is_digit s | Some v \<Rightarrow> False) \<and>
      (case map_of c ''date'' of
         Some (PDict d) \<Rightarrow>
           (case map_of d ''year'' of
              None \<Rightarrow> True | Some PNone \<Rightarrow> True | Some (PInt y) \<Rightarrow> True | Some v \<Rightarrow> False)
       | other \<Rightarrow> True))"

text \<open>The year a record contributes to \<open>years\<close>: its number is not empty and its
  date holds a year that is not zero.\<close>

definition observed_year :: "pydict \<Rightarrow> int option" where
  "observed_year c =
     (case map_of c ''number'' of
        Some (PStr s) \<Rightarrow>
          if s = [] then None
          else (case map_of c ''date'' of
                  Some (PDict d) \<Rightarrow>
                    (case map_of d ''year'' of
                       Some (PInt y) \<Rightarrow> if y = 0 then None else Some y
                     | other \<Rightarrow> None)
                | other \<Rightarrow> None)
      | other \<Rightarrow> None)"

definition observed_years :: "pydict list \<Rightarrow> int list" where
  "observed_years cs = List.map_filter observed_year cs"

text \<open>A canonical record used in the concrete examples.\<close>

definition year_record :: "string \<Rightarrow> int \<Rightarrow> pydict" where
  "year_record num y =
     [(''title'', PStr ''Cache''), (''number'', PStr num),
      (''date'', PDict [(''year'', PInt y), (''month'', PNone), (''day'', PNone)])]"

section \<open>The acceptance condition as the specification words it\<close>

text \<open>
  The specification's matcher, kept apart from the code's: some inventor entry whose
  first and last name equal the targets up to letter case, and, when a filter is given,
  some organization string that contains the filter up to letter case.
\<close>

definition spec_accepts ::
  "string \<Rightarrow> string \<Rightarrow> string option \<Rightarrow> inventor list \<Rightarrow> assignee list \<Rightarrow> bool" where
  "spec_accepts target_first target_last assignee_filter entries orgs =
     (list_ex (\<lambda>e. lower (get_str (inventor_name_first e)) = lower target_first \<and>
                    lower (get_str (inventor_name_last e)) = lower target_last) entries \<and>
      (case assignee_filter of
         None \<Rightarrow> True
       | Some f \<Rightarrow> list_ex (\<lambda>a. is_substring (lower f) (lower (get_str (assignee_organization a)))) orgs))"

text \<open>Records and a result element used in the concrete examples.\<close>

definition named_patent :: "string option \<Rightarrow> string option \<Rightarrow> string \<Rightarrow> string \<Rightarrow> raw_patent" where
  "named_patent num ttl first_name last_name =
     (sample_patent num ttl)
       \<lparr>inventors := Some [\<lparr>inventor_name_first = Some first_name,
                             inventor_name_last = Some last_name\<rparr>]\<rparr>"

definition sample_result :: search_result where
  "sample_result =
     \<lparr>title_elem_text = ''Dynamic CPU Frequency Scaling'',
      href_number = Some ''US10123456B2'',
      text_number = None,
      desc_elem_text = None,
      inventor_section_text = Some ''Ashok Raj, Jane Doe'',
      assignee_section_text = Some ''Intel Corporation'',
      date_section_text = Some ''2023-05-15''\<rparr>"

definition sample_found :: raw_patent where
  "sample_found =
     \<lparr>patent_id = Some ''US10123456B2'',
      patent_title = Some ''Dynamic CPU Frequency Scaling'',
      patent_abstract = Some [],
      patent_date = Some ''2023-05-15'',
      inventors = Some [\<lparr>inventor_name_first = Some ''Ashok'', inventor_name_last = Some ''Raj''\<rparr>,
                        \<lparr>inventor_name_first = Some ''Jane'', inventor_name_last = Some ''Doe''\<rparr>],
      assignees = Some [\<lparr>assignee_organization = Some ''Intel Corporation''\<rparr>],
      source = Some ''google_patents''\<rparr>"

section \<open>Properties of the deduplicator\<close>

lemma remove_duplicates_loop_acc:
  "remove_duplicates_loop seen acc ps = acc @ remove_duplicates_loop seen [] ps"
proof (induction ps arbitrary: seen acc)
  case Nil
  show ?case by simp
next
  case (Cons p ps)
  show ?case
    using Cons.IH [of "insert (get_str (patent_id p)) seen" "acc @ [p]"]
      Cons.IH [of "insert (get_str (patent_id p)) seen" "[p]"]
      Cons.IH [of seen acc]
    by (simp add: Let_def)
qed

lemma loop_Nil [simp]: "remove_duplicates_loop seen [] [] = []"
  by simp

lemma loop_Cons:
  "remove_duplicates_loop seen [] (p # ps) =
     (if truthy (patent_id p) \<and> get_str (patent_id p) \<notin> seen
      then p # remove_duplicates_loop (insert (get_str (patent_id p)) seen) [] ps
      else remove_duplicates_loop seen [] ps)"
  using remove_duplicates_loop_acc [of "insert (get_str (patent_id p)) seen" "[p]" ps]
  by (simp add: Let_def)

declare remove_duplicates_loop.simps(2) [simp del]

lemma loop_ids:
  "p \<in> set (remove_duplicates_loop seen [] ps) \<Longrightarrow>
     truthy (patent_id p) \<and> get_str (patent_id p) \<notin> seen \<and> p \<in> set ps"
  by (induction ps arbitrary: seen) (auto simp: loop_Cons split: if_splits)

lemma loop_subseq: "subseq (remove_duplicates_loop seen [] ps) ps"
  by (induction ps arbitrary: seen) (auto simp: loop_Cons)

lemma loop_append:
  "remove_duplicates_loop seen [] (xs @ ys) =
     remove_duplicates_loop seen [] xs @
     remove_duplicates_loop (seen \<union> (\<lambda>q. get_str (patent_id q)) ` set (remove_duplicates_loop seen [] xs)) [] ys"
proof (induction xs arbitrary: seen)
  case Nil
  show ?case by simp
next
  case (Cons x xs)
  show ?case
  proof (cases "truthy (patent_id x) \<and> get_str (patent_id x) \<notin> seen")
    case True
    have "insert (get_str (patent_id x)) seen \<union> (\<lambda>q. get_str (patent_id q)) ` set (remove_duplicates_loop (insert (get_str (patent_id x)) seen) [] xs)
        = seen \<union> (\<lambda>q. get_str (patent_id q)) ` set (x # remove_duplicates_loop (insert (get_str (patent_id x)) seen) [] xs)"
      by auto
    with True Cons.IH [of "insert (get_str (patent_id x)) seen"] show ?thesis
      by (simp add: loop_Cons)
  next
    case False
    then have "remove_duplicates_loop seen [] (x # zs) = remove_duplicates_loop seen [] zs" for zs
      by (auto simp: loop_Cons)
    with Cons.IH [of seen] show ?thesis
      by simp
  qed
qed

lemma loop_filter_seen:
  "k \<in> seen \<Longrightarrow> filter (\<lambda>q. patent_id q = Some k) (remove_duplicates_loop seen [] ps) = []"
proof -
  assume k: "k \<in> seen"
  have "\<And>q. q \<in> set (remove_duplicates_loop seen [] ps) \<Longrightarrow> patent_id q \<noteq> Some k"
  proof
    fix q
    assume q: "q \<in> set (remove_duplicates_loop seen [] ps)" and e: "patent_id q = Some k"
    from loop_ids [OF q] have "get_str (patent_id q) \<notin> seen" by simp
    with e k show False by (simp add: get_str_def)
  qed
  then show ?thesis by (simp add: filter_empty_conv)
qed

lemma loop_filter_first:
  "k \<noteq> [] \<Longrightarrow> k \<notin> seen \<Longrightarrow>
   filter (\<lambda>q. patent_id q = Some k) (remove_duplicates_loop seen [] ps) =
   take 1 (filter (\<lambda>q. patent_id q = Some k) ps)"
proof (induction ps arbitrary: seen)
  case Nil
  show ?case by simp
next
  case (Cons p ps)
  show ?case
  proof (cases "patent_id p = Some k")
    case True
    with Cons.prems have acc: "truthy (patent_id p) \<and> get_str (patent_id p) \<notin> seen"
      by (simp add: truthy_def get_str_def)
    have "filter (\<lambda>q. patent_id q = Some k) (remove_duplicates_loop (insert k seen) [] ps) = []"
      by (rule loop_filter_seen) simp
    with True acc show ?thesis
      by (simp add: loop_Cons get_str_def)
  next
    case False
    show ?thesis
    proof (cases "truthy (patent_id p) \<and> get_str (patent_id p) \<notin> seen")
      case True
      from False True have "k \<noteq> get_str (patent_id p)"
        by (auto simp: truthy_def get_str_def split: option.splits)
      with Cons.prems have "k \<notin> insert (get_str (patent_id p)) seen" by simp
      from Cons.IH [OF Cons.prems(1) this] True False show ?thesis
        by (simp add: loop_Cons)
    next
      case F2: False
      then have "remove_duplicates_loop seen [] (p # ps) = remove_duplicates_loop seen [] ps"
        by (auto simp: loop_Cons)
      with Cons.IH [OF Cons.prems] False show ?thesis
        by simp
    qed
  qed
qed

lemma loop_fixed:
  "\<forall>q \<in> set ps. truthy (patent_id q) \<and> get_str (patent_id q) \<notin> seen \<Longrightarrow>
   distinct (map (\<lambda>q. get_str (patent_id q)) ps) \<Longrightarrow>
   remove_duplicates_loop seen [] ps = ps"
proof (induction ps arbitrary: seen)
  case Nil
  show ?case by simp
next
  case (Cons p ps)
  have "\<forall>q \<in> set ps. truthy (patent_id q) \<and> get_str (patent_id q) \<notin> insert (get_str (patent_id p)) seen"
  proof
    fix q
    assume q: "q \<in> set ps"
    from Cons.prems(2) have "get_str (patent_id p) \<notin> (\<lambda>q. get_str (patent_id q)) ` set ps"
      by simp
    with q have "get_str (patent_id q) \<noteq> get_str (patent_id p)"
      by (auto simp: image_iff)
    with Cons.prems(1) q
    show "truthy (patent_id q) \<and> get_str (patent_id q) \<notin> insert (get_str (patent_id p)) seen"
      by simp
  qed
  moreover have "distinct (map (\<lambda>q. get_str (patent_id q)) ps)"
    using Cons.prems by simp
  ultimately have "remove_duplicates_loop (insert (get_str (patent_id p)) seen) [] ps = ps"
    by (rule Cons.IH)
  moreover have "truthy (patent_id p) \<and> get_str (patent_id p) \<notin> seen"
    using Cons.prems by simp
  ultimately show ?case
    by (simp add: loop_Cons)
qed

lemma loop_distinct:
  "distinct (map (\<lambda>q. get_str (patent_id q)) (remove_duplicates_loop seen [] ps))"
proof (induction ps arbitrary: seen)
  case Nil
  show ?case by simp
next
  case (Cons p ps)
  have "get_str (patent_id q) \<noteq> get_str (patent_id p)"
    if "q \<in> set (remove_duplicates_loop (insert (get_str (patent_id p)) seen) [] ps)" for q
    using loop_ids [OF that] by simp
  then have "get_str (patent_id p) \<notin>
      (\<lambda>q. get_str (patent_id q)) ` set (remove_duplicates_loop (insert (get_str (patent_id p)) seen) [] ps)"
    by force
  with Cons.IH show ?case
    by (simp add: loop_Cons)
qed

lemma loop_skip_falsy:
  "\<not> truthy (patent_id p) \<Longrightarrow>
   remove_duplicates_loop seen [] (xs @ p # ys) = remove_duplicates_loop seen [] (xs @ ys)"
  by (simp add: loop_append [of seen xs] loop_Cons)


lemma remove_duplicates_ids:
  "p \<in> set (remove_duplicates ps) \<Longrightarrow> truthy (patent_id p) \<and> p \<in> set ps"
  using loop_ids [of p "{}" ps] by (simp add: remove_duplicates_def)

text \<open>
  Claim C1, as stated, fails: a record whose identifier is absent is not retained.
\<close>

theorem no_identifier_retained_counterexample:
  "sample_patent None (Some ''Cache flush'') \<notin>
     set (remove_duplicates [sample_patent None (Some ''Cache flush'')])"
  by (simp add: remove_duplicates_def remove_duplicates_loop.simps sample_patent_def truthy_def)

text \<open>
  Claim C1, amended: a record whose identifier is absent or empty never appears in the
  output of the deduplicator, and it has no effect on the other records: the output is
  the same as if the record were not in the input, so the missing identifier is never
  used as a key against later records.
\<close>

theorem no_identifier_dropped:
  assumes "patent_id p = None \<or> patent_id p = Some []"
  shows "p \<notin> set (remove_duplicates ps) \<and>
         remove_duplicates (xs @ p # ys) = remove_duplicates (xs @ ys)"
proof -
  from assms have falsy: "\<not> truthy (patent_id p)"
    by (auto simp: truthy_def)
  then have "p \<notin> set (remove_duplicates ps)"
    using remove_duplicates_ids [of p ps] by blast
  moreover have "remove_duplicates (xs @ p # ys) = remove_duplicates (xs @ ys)"
    using loop_skip_falsy [OF falsy] by (simp add: remove_duplicates_def)
  ultimately show ?thesis ..
qed

theorem no_identifier_dropped_witness:
  "patent_id (sample_patent (Some []) (Some ''Cache flush'')) = Some [] \<and>
   sample_patent (Some []) (Some ''Cache flush'') \<notin>
     set (remove_duplicates [sample_patent (Some []) (Some ''Cache flush''),
                             sample_patent (Some ''10123456'') (Some ''Paging'')]) \<and>
   remove_duplicates ([sample_patent (Some ''10123456'') (Some ''Paging'')] @
                      sample_patent (Some []) (Some ''Cache flush'') #
                      [sample_patent (Some []) (Some ''Interrupts'')]) =
   remove_duplicates ([sample_patent (Some ''10123456'') (Some ''Paging'')] @
                      [sample_patent (Some []) (Some ''Interrupts'')])"
proof -
  have h: "patent_id (sample_patent (Some []) (Some ''Cache flush'')) = Some []"
    by (simp add: sample_patent_def)
  then have "patent_id (sample_patent (Some []) (Some ''Cache flush'')) = None \<or>
             patent_id (sample_patent (Some []) (Some ''Cache flush'')) = Some []"
    by simp
  from no_identifier_dropped [OF this] h show ?thesis
    by blast
qed

text \<open>
  Claim C2: when two or more records of the input share a non-empty identifier, the
  output of the deduplicator is a subsequence of the input (the order of the retained
  records is that of the input) and holds exactly one record with that identifier, the
  first one of the input.
\<close>

theorem first_occurrence_kept:
  assumes "k \<noteq> []"
    and "2 \<le> length (filter (\<lambda>q. patent_id q = Some k) ps)"
  shows "subseq (remove_duplicates ps) ps \<and>
         filter (\<lambda>q. patent_id q = Some k) (remove_duplicates ps) =
           [hd (filter (\<lambda>q. patent_id q = Some k) ps)]"
proof -
  have "subseq (remove_duplicates ps) ps"
    by (simp add: remove_duplicates_def loop_subseq)
  moreover have "filter (\<lambda>q. patent_id q = Some k) (remove_duplicates ps) =
      take 1 (filter (\<lambda>q. patent_id q = Some k) ps)"
    using loop_filter_first [of k "{}" ps] assms(1) by (simp add: remove_duplicates_def)
  moreover have "take 1 (filter (\<lambda>q. patent_id q = Some k) ps) =
      [hd (filter (\<lambda>q. patent_id q = Some k) ps)]"
    using assms(2) by (cases "filter (\<lambda>q. patent_id q = Some k) ps") simp_all
  ultimately show ?thesis by simp
qed

theorem first_occurrence_kept_witness:
  "''US10123456B2'' \<noteq> [] \<and>
   2 \<le> length (filter (\<lambda>q. patent_id q = Some ''US10123456B2'')
                 [sample_patent (Some ''US10123456B2'') (Some ''From the API''),
                  sample_patent (Some ''US9000001B1'') (Some ''Other''),
                  sample_patent (Some ''US10123456B2'') (Some ''From the page'')]) \<and>
   subseq (remove_duplicates
             [sample_patent (Some ''US10123456B2'') (Some ''From the API''),
              sample_patent (Some ''US9000001B1'') (Some ''Other''),
              sample_patent (Some ''US10123456B2'') (Some ''From the page'')])
          [sample_patent (Some ''US10123456B2'') (Some ''From the API''),
           sample_patent (Some ''US9000001B1'') (Some ''Other''),
           sample_patent (Some ''US10123456B2'') (Some ''From the page'')] \<and>
   filter (\<lambda>q. patent_id q = Some ''US10123456B2'')
     (remove_duplicates
        [sample_patent (Some ''US10123456B2'') (Some ''From the API''),
         sample_patent (Some ''US9000001B1'') (Some ''Other''),
         sample_patent (Some ''US10123456B2'') (Some ''From the page'')]) =
   [sample_patent (Some ''US10123456B2'') (Some ''From the API'')]"
proof -
  have h1: "''US10123456B2'' \<noteq> []"
    by simp
  have h2: "2 \<le> length (filter (\<lambda>q. patent_id q = Some ''US10123456B2'')
                 [sample_patent (Some ''US10123456B2'') (Some ''From the API''),
                  sample_patent (Some ''US9000001B1'') (Some ''Other''),
                  sample_patent (Some ''US10123456B2'') (Some ''From the page'')])"
    by (simp add: sample_patent_def)
  have h3: "hd (filter (\<lambda>q. patent_id q = Some ''US10123456B2'')
                 [sample_patent (Some ''US10123456B2'') (Some ''From the API''),
                  sample_patent (Some ''US9000001B1'') (Some ''Other''),
                  sample_patent (Some ''US10123456B2'') (Some ''From the page'')]) =
            sample_patent (Some ''US10123456B2'') (Some ''From the API'')"
    by (simp add: sample_patent_def)
  from first_occurrence_kept [OF h1 h2] h1 h2 h3 show ?thesis
    by simp
qed

text \<open>
  Claim C10: the deduplicator is idempotent. Its output holds only truthy, pairwise
  different identifiers, and such a list passes through unchanged.
\<close>

theorem remove_duplicates_idempotent:
  "remove_duplicates (remove_duplicates ps) = remove_duplicates ps"
proof -
  have "\<forall>q \<in> set (remove_duplicates_loop {} [] ps).
          truthy (patent_id q) \<and> get_str (patent_id q) \<notin> {}"
    using loop_ids [of _ "{}" ps] by simp
  then have "remove_duplicates_loop {} [] (remove_duplicates_loop {} [] ps) =
      remove_duplicates_loop {} [] ps"
    using loop_distinct [of "{}" ps] by (rule loop_fixed)
  then show ?thesis
    by (simp add: remove_duplicates_def)
qed

section \<open>Properties of the normalizer\<close>

lemma py_int_error: "py_int s = Inl e \<Longrightarrow> e = ValueError"
  by (auto simp: py_int_def split: list.splits if_splits option.splits)

lemma linkedin_date_error: "linkedin_date p = Inl e \<Longrightarrow> e = ValueError"
  by (auto simp: linkedin_date_def and_then_def dest: py_int_error split: sum.splits if_splits)

lemma format_patent_error: "format_patent p = Inl e \<Longrightarrow> e = ValueError"
  by (auto simp: format_patent_def and_then_def Let_def dest: linkedin_date_error split: sum.splits)

lemma format_for_linkedin_error: "format_for_linkedin ps = Inl e \<Longrightarrow> e = ValueError"
  by (induction ps arbitrary: e) (auto dest: format_patent_error split: sum.splits)

lemma format_for_linkedin_fails:
  "p \<in> set ps \<Longrightarrow> format_patent p = Inl e \<Longrightarrow> format_for_linkedin ps = Inl ValueError"
proof (induction ps)
  case Nil
  then show ?case by simp
next
  case (Cons q qs)
  show ?case
  proof (cases "format_patent q")
    case (Inl e')
    with format_patent_error [OF Inl] show ?thesis by simp
  next
    case (Inr d)
    with Cons have "format_for_linkedin qs = Inl ValueError" by auto
    with Inr show ?thesis by simp
  qed
qed

lemma linkedin_date_fails:
  assumes "truthy (patent_date p)" "i < 3" "i < length (date_segments p)"
    "py_int (date_segments p ! i) = Inl ValueError"
  shows "linkedin_date p = Inl ValueError"
proof -
  from assms(2) consider "i = 0" | "i = 1" | "i = 2" by linarith
  then show ?thesis
  proof cases
    case 1
    with assms show ?thesis by (simp add: linkedin_date_def and_then_def)
  next
    case 2
    with assms show ?thesis
      by (auto simp: linkedin_date_def and_then_def dest: py_int_error split: sum.splits)
  next
    case 3
    with assms show ?thesis
      by (auto simp: linkedin_date_def and_then_def dest: py_int_error split: sum.splits)
  qed
qed

lemma format_patent_fails: "linkedin_date p = Inl e \<Longrightarrow> format_patent p = Inl e"
  by (simp add: format_patent_def and_then_def)

lemma format_for_linkedin_length:
  "format_for_linkedin ps = Inr out \<Longrightarrow> length out = length ps"
  by (induction ps arbitrary: out) (auto split: sum.splits)

text \<open>
  Claim C3: the claim holds for a full date, and the code departs from it for a shorter
  one. The date \<open>2023-05-15\<close> gives year 2023, month 5 and day 15. The date
  \<open>2023\<close> gives a \<open>date\<close> entry that still has the keys \<open>month\<close> and
  \<open>day\<close>, each holding \<open>None\<close>: the removal of \<open>None\<close> values at the end of the
  loop looks at the top-level entries only.
\<close>

theorem short_date_keeps_placeholders:
  "linkedin_date ((sample_patent (Some ''10123456'') (Some ''Dynamic CPU Frequency Scaling''))
                    \<lparr>patent_date := Some ''2023-05-15''\<rparr>) =
     Inr (PDict [(''year'', PInt 2023), (''month'', PInt 5), (''day'', PInt 15)]) \<and>
   format_for_linkedin
     [(sample_patent (Some ''10123456'') (Some ''Dynamic CPU Frequency Scaling''))
        \<lparr>patent_date := Some ''2023''\<rparr>] =
     Inr [[(''title'', PStr ''Dynamic CPU Frequency Scaling''),
           (''summary'', PStr []),
           (''number'', PStr ''10123456''),
           (''status'', PStr ''granted''),
           (''office'', PDict [(''name'', PStr ''United States Patent and Trademark Office (USPTO)'')]),
           (''inventors'', PList []),
           (''date'', PDict [(''year'', PInt 2023), (''month'', PNone), (''day'', PNone)]),
           (''url'', PStr ''https://patents.google.com/patent/US10123456'')]]"
  by code_simp

text \<open>
  Claim C4, as stated, fails: in a batch of two records, the second with the date
  \<open>2023-May-15\<close>, no record is normalized; the ValueError of \<open>int\<close> ends the call.
\<close>

theorem malformed_date_counterexample:
  "format_for_linkedin
     [(sample_patent (Some ''10123456'') (Some ''Paging''))\<lparr>patent_date := Some ''2023-05-15''\<rparr>,
      (sample_patent (Some ''10999999'') (Some ''Caching''))\<lparr>patent_date := Some ''2023-May-15''\<rparr>] =
   Inl ValueError"
  by code_simp

text \<open>
  Claim C4, amended: if a record of the batch has a non-empty date string and one of its
  first three segments between dashes is not accepted by \<open>int\<close>, the normalizer
  raises ValueError for the whole batch: no record of the batch is normalized.
\<close>

theorem malformed_date_fatal:
  assumes "p \<in> set ps"
    and "truthy (patent_date p)"
    and "i < 3"
    and "i < length (date_segments p)"
    and "py_int (date_segments p ! i) = Inl ValueError"
  shows "format_for_linkedin ps = Inl ValueError"
proof -
  have "linkedin_date p = Inl ValueError"
    using assms(2-5) by (rule linkedin_date_fails)
  then have "format_patent p = Inl ValueError"
    by (rule format_patent_fails)
  with assms(1) show ?thesis
    by (rule format_for_linkedin_fails)
qed

theorem malformed_date_fatal_witness:
  "py_int (date_segments ((sample_patent (Some ''10999999'') (Some ''Caching''))
                             \<lparr>patent_date := Some ''2023-May-15''\<rparr>) ! 1) = Inl ValueError \<and>
   format_for_linkedin
     [(sample_patent (Some ''10123456'') (Some ''Paging''))\<lparr>patent_date := Some ''2023-05-15''\<rparr>,
      (sample_patent (Some ''10999999'') (Some ''Caching''))\<lparr>patent_date := Some ''2023-May-15''\<rparr>] =
   Inl ValueError"
proof -
  let ?bad = "(sample_patent (Some ''10999999'') (Some ''Caching''))\<lparr>patent_date := Some ''2023-May-15''\<rparr>"
  let ?good = "(sample_patent (Some ''10123456'') (Some ''Paging''))\<lparr>patent_date := Some ''2023-05-15''\<rparr>"
  have h1: "?bad \<in> set [?good, ?bad]"
    by simp
  have h2: "truthy (patent_date ?bad)"
    by (simp add: truthy_def)
  have h3: "(1::nat) < 3"
    by simp
  have h4: "1 < length (date_segments ?bad)"
    by code_simp
  have h5: "py_int (date_segments ?bad ! 1) = Inl ValueError"
    by code_simp
  from malformed_date_fatal [OF h1 h2 h3 h4 h5] h5 show ?thesis
    by simp
qed

text \<open>
  Claim C9, as stated, fails: a record whose only assignee entry has an empty
  organization string gets an \<open>assignees\<close> field, holding the empty list.
\<close>

theorem empty_organization_counterexample:
  "format_patent ((sample_patent (Some ''10123456'') (Some ''Paging''))
                    \<lparr>assignees := Some [\<lparr>assignee_organization = Some []\<rparr>]\<rparr>) =
     Inr [(''title'', PStr ''Paging''),
          (''summary'', PStr []),
          (''number'', PStr ''10123456''),
          (''status'', PStr ''granted''),
          (''office'', PDict [(''name'', PStr ''United States Patent and Trademark Office (USPTO)'')]),
          (''inventors'', PList []),
          (''date'', PDict [(''year'', PNone), (''month'', PNone), (''day'', PNone)]),
          (''url'', PStr ''https://patents.google.com/patent/US10123456''),
          (''assignees'', PList [])]"
  by code_simp

text \<open>
  Claim C9, amended: the canonical record has an \<open>assignees\<close> field exactly when the
  raw record has at least one assignee entry. The field lists, in order, the
  organization strings that are not empty, so it is the empty list when every entry has
  an empty or missing organization string.
\<close>

theorem assignees_field:
  assumes "format_patent p = Inr d"
  shows "map_of d ''assignees'' =
     (if get_list (assignees p) \<noteq> []
      then Some (PList (map (\<lambda>a. PDict [(''name'', PStr (get_str (assignee_organization a)))])
                         (filter (\<lambda>a. truthy (assignee_organization a)) (get_list (assignees p)))))
      else None)"
  using assms
  by (auto simp: format_patent_def and_then_def Let_def split: sum.splits if_splits)

theorem assignees_field_witness:
  "format_patent ((sample_patent (Some ''10123456'') (Some ''Paging''))
                    \<lparr>assignees := Some [\<lparr>assignee_organization = Some []\<rparr>,
                                        \<lparr>assignee_organization = Some ''Intel Corporation''\<rparr>]\<rparr>) =
     Inr [(''title'', PStr ''Paging''),
          (''summary'', PStr []),
          (''number'', PStr ''10123456''),
          (''status'', PStr ''granted''),
          (''office'', PDict [(''name'', PStr ''United States Patent and Trademark Office (USPTO)'')]),
          (''inventors'', PList []),
          (''date'', PDict [(''year'', PNone), (''month'', PNone), (''day'', PNone)]),
          (''url'', PStr ''https://patents.google.com/patent/US10123456''),
          (''assignees'', PList [PDict [(''name'', PStr ''Intel Corporation'')]])] \<and>
   map_of [(''title'', PStr ''Paging''),
          (''summary'', PStr []),
          (''number'', PStr ''10123456''),
          (''status'', PStr ''granted''),
          (''office'', PDict [(''name'', PStr ''United States Patent and Trademark Office (USPTO)'')]),
          (''inventors'', PList []),
          (''date'', PDict [(''year'', PNone), (''month'', PNone), (''day'', PNone)]),
          (''url'', PStr ''https://patents.google.com/patent/US10123456''),
          (''assignees'', PList [PDict [(''name'', PStr ''Intel Corporation'')]])] ''assignees'' =
     Some (PList [PDict [(''name'', PStr ''Intel Corporation'')]])"
proof -
  have h: "format_patent ((sample_patent (Some ''10123456'') (Some ''Paging''))
                    \<lparr>assignees := Some [\<lparr>assignee_organization = Some []\<rparr>,
                                        \<lparr>assignee_organization = Some ''Intel Corporation''\<rparr>]\<rparr>) =
     Inr [(''title'', PStr ''Paging''),
          (''summary'', PStr []),
          (''number'', PStr ''10123456''),
          (''status'', PStr ''granted''),
          (''office'', PDict [(''name'', PStr ''United States Patent and Trademark Office (USPTO)'')]),
          (''inventors'', PList []),
          (''date'', PDict [(''year'', PNone), (''month'', PNone), (''day'', PNone)]),
          (''url'', PStr ''https://patents.google.com/patent/US10123456''),
          (''assignees'', PList [PDict [(''name'', PStr ''Intel Corporation'')]])]"
    by code_simp
  from assignees_field [OF h] h show ?thesis
    by (simp add: get_list_def truthy_def get_str_def)
qed

section \<open>Properties of the portfolio analyzer\<close>

lemma year_of_ok:
  "canonical_ok c \<Longrightarrow> year_of c = Inr (case observed_year c of None \<Rightarrow> [] | Some y \<Rightarrow> [y])"
  by (auto simp: canonical_ok_def year_of_def observed_year_def dict_get_def and_then_def Let_def
      split: option.splits pyval.splits)

lemma portfolio_years_ok:
  "\<forall>c \<in> set cs. canonical_ok c \<Longrightarrow> portfolio_years cs = Inr (observed_years cs)"
proof (induction cs)
  case Nil
  show ?case by (simp add: observed_years_def List.map_filter_simps)
next
  case (Cons c cs)
  then have "portfolio_years cs = Inr (observed_years cs)" by simp
  moreover from Cons.prems have "year_of c = Inr (case observed_year c of None \<Rightarrow> [] | Some y \<Rightarrow> [y])"
    by (simp add: year_of_ok)
  ultimately show ?case
    by (cases "observed_year c") (simp_all add: observed_years_def List.map_filter_simps)
qed

lemma title_lower_ok:
  "canonical_ok c \<Longrightarrow> \<exists>t. title_lower (dict_get c ''title'' (PStr [])) = Inr t"
proof -
  assume "canonical_ok c"
  then have "case map_of c ''title'' of None \<Rightarrow> True | Some (PStr t) \<Rightarrow> True | Some v \<Rightarrow> False"
    by (simp add: canonical_ok_def)
  then show ?thesis
    by (cases "map_of c ''title''") (auto simp: dict_get_def split: pyval.splits)
qed

lemma titles_lowered_ok:
  "\<forall>c \<in> set cs. canonical_ok c \<Longrightarrow> \<exists>ts. titles_lowered cs = Inr ts"
proof (induction cs)
  case Nil
  show ?case by simp
next
  case (Cons c cs)
  then obtain ts where "titles_lowered cs = Inr ts" by auto
  moreover from Cons.prems title_lower_ok [of c]
  obtain t where "title_lower (dict_get c ''title'' (PStr [])) = Inr t" by auto
  ultimately show ?case by simp
qed

lemma int_digits_ok:
  "list_all is_digit ds \<Longrightarrow> ds \<noteq> [] \<or> b \<Longrightarrow> \<exists>n. int_digits b acc ds = Some n"
  by (induction ds arbitrary: b acc) auto

lemma digit_not_space: "is_digit c \<Longrightarrow> \<not> is_space c"
  by (auto simp: is_digit_def is_space_def Let_def)

lemma dropWhile_space_digits: "list_all is_digit ds \<Longrightarrow> dropWhile is_space ds = ds"
  by (cases ds) (auto simp: digit_not_space)

lemma strip_digits: "list_all is_digit ds \<Longrightarrow> strip ds = ds"
proof -
  assume a: "list_all is_digit ds"
  then have "list_all is_digit (rev ds)"
    by (simp add: list_all_iff)
  then have "dropWhile is_space (rev ds) = rev ds"
    by (rule dropWhile_space_digits)
  with dropWhile_space_digits [OF a] show ?thesis
    by (simp add: strip_def)
qed

lemma py_int_digits:
  assumes "list_all is_digit ds" "ds \<noteq> []"
  shows "\<exists>n. py_int ds = Inr n"
proof -
  from assms obtain c cs where ds: "ds = c # cs" by (cases ds) auto
  with assms have c: "is_digit c" by simp
  then have sign: "c \<noteq> CHR ''-''" "c \<noteq> CHR ''+''"
    by (auto simp: is_digit_def)
  from int_digits_ok [OF assms(1), of False 0] assms(2)
  obtain n where "int_digits False 0 ds = Some n" by auto
  then have n: "int_digits False 0 (c # cs) = Some n"
    by (simp only: ds)
  have "strip (c # cs) = c # cs"
    using strip_digits [OF assms(1)] by (simp only: ds)
  with sign n show ?thesis
    by (simp add: py_int_def ds del: int_digits.simps)
qed

lemma number_key_ok:
  "list_ex is_digit s \<Longrightarrow> \<exists>n. number_key (PStr s) = Inr n"
proof -
  assume "list_ex is_digit s"
  then have ne: "filter is_digit s \<noteq> []"
    by (auto simp: list_ex_iff filter_empty_conv)
  have "concat (map (\<lambda>c. [c]) (filter is_digit s)) = filter is_digit s"
    by (induction s) auto
  moreover have "list_all is_digit (filter is_digit s)"
    by (simp add: list_all_iff)
  ultimately show ?thesis
    using py_int_digits [OF _ ne] by (simp add: number_key_def and_then_def)
qed

lemma number_keys_ok:
  "\<forall>c \<in> set cs. canonical_ok c \<Longrightarrow> \<exists>ks. number_keys (patent_nums cs) = Inr ks"
proof (induction cs)
  case Nil
  show ?case by (simp add: patent_nums_def)
next
  case (Cons c cs)
  then obtain ks where ks: "number_keys (patent_nums cs) = Inr ks" by auto
  from Cons.prems have ok: "canonical_ok c" by simp
  show ?case
  proof (cases "py_truthy (dict_get c ''number'' (PStr []))")
    case False
    with ks show ?thesis by (simp add: patent_nums_def)
  next
    case True
    with ok obtain s where s: "dict_get c ''number'' (PStr []) = PStr s" "list_ex is_digit s"
      by (auto simp: canonical_ok_def dict_get_def split: option.splits pyval.splits)
    from number_key_ok [OF s(2)] obtain n where "number_key (PStr s) = Inr n" ..
    with ks s True show ?thesis by (simp add: patent_nums_def)
  qed
qed

lemma linkedin_date_shape:
  "linkedin_date p = Inr v \<Longrightarrow>
   \<exists>y m d. v = PDict [(''year'', y), (''month'', m), (''day'', d)] \<and> (y = PNone \<or> (\<exists>n. y = PInt n))"
  unfolding linkedin_date_def and_then_def
  by (cases "truthy (patent_date p)"; cases "py_int (date_segments p ! 0)";
      cases "1 < length (date_segments p)"; cases "py_int (date_segments p ! 1)";
      cases "2 < length (date_segments p)"; cases "py_int (date_segments p ! 2)") auto

lemma format_patent_entries:
  assumes "format_patent p = Inr c"
  shows "\<exists>v. linkedin_date p = Inr v \<and>
     map_of c ''title'' = Some (PStr (get_str (patent_title p))) \<and>
     map_of c ''number'' = Some (PStr (get_str (patent_id p))) \<and>
     map_of c ''date'' = Some v"
proof (cases "linkedin_date p")
  case (Inl e)
  with assms show ?thesis by (simp add: format_patent_def and_then_def)
next
  case (Inr v)
  from linkedin_date_shape [OF Inr] have "v \<noteq> PNone" by auto
  with assms Inr show ?thesis
    by (cases "get_list (assignees p) = []"; cases "truthy (patent_id p)")
       (auto simp: format_patent_def and_then_def Let_def)
qed

lemma format_patent_ok:
  assumes "format_patent p = Inr c"
    and "\<not> truthy (patent_id p) \<or> list_ex is_digit (get_str (patent_id p))"
  shows "canonical_ok c"
proof -
  from format_patent_entries [OF assms(1)] obtain v where
    v: "linkedin_date p = Inr v" and t: "map_of c ''title'' = Some (PStr (get_str (patent_title p)))"
    and n: "map_of c ''number'' = Some (PStr (get_str (patent_id p)))" and dt: "map_of c ''date'' = Some v"
    by blast
  from linkedin_date_shape [OF v] obtain y m d where
    shape: "v = PDict [(''year'', y), (''month'', m), (''day'', d)]" "y = PNone \<or> (\<exists>n. y = PInt n)"
    by blast
  from assms(2) have "get_str (patent_id p) = [] \<or> list_ex is_digit (get_str (patent_id p))"
    by (auto simp: truthy_def get_str_def split: option.splits)
  with t n dt shape show ?thesis
    by (auto simp: canonical_ok_def)
qed

text \<open>
  Claim C5, as stated, fails: two records that share the year 2019 observe one distinct
  year, and a rate of 2 is reported.
\<close>

theorem single_year_rate_counterexample:
  "patents_per_year [year_record ''10000001'' 2019, year_record ''10000002'' 2019] = Inr (Some 2)"
  by code_simp

text \<open>
  Claim C5, amended: the analyzer reports the rate count / (max_year - min_year + 1),
  count being the number of records of the set, when at least two records contribute a
  year (a record contributes when its number is not empty and its year is not zero; the
  years need not differ), and it reports no rate when fewer than two records do. Years
  2019, 2019 and 2021 in a set of three records give the rate 1.
\<close>

theorem innovation_rate:
  assumes "\<forall>c \<in> set cs. canonical_ok c"
  shows "patents_per_year cs =
     Inr (if 2 \<le> length (observed_years cs)
          then Some (of_nat (length cs) /
                     of_int (Max (set (observed_years cs)) - Min (set (observed_years cs)) + 1))
          else None)"
proof -
  from titles_lowered_ok [OF assms] obtain ts where ts: "titles_lowered cs = Inr ts" ..
  from number_keys_ok [OF assms] obtain ks where ks: "number_keys (patent_nums cs) = Inr ks" ..
  have nil: "observed_years [] = []"
    by (simp add: observed_years_def List.map_filter_simps)
  show ?thesis
  proof (cases "cs = []")
    case True
    then show ?thesis by (simp add: patents_per_year_def nil)
  next
    case False
    have "2 \<le> length (observed_years cs) \<longleftrightarrow> 1 < length (observed_years cs)" by auto
    with False ts ks portfolio_years_ok [OF assms] show ?thesis
      by (simp add: patents_per_year_def and_then_def Let_def)
  qed
qed

theorem innovation_rate_witness:
  "canonical_ok (year_record ''10000001'' 2019) \<and>
   canonical_ok (year_record ''10000002'' 2019) \<and>
   canonical_ok (year_record ''10000003'' 2021) \<and>
   observed_years [year_record ''10000001'' 2019, year_record ''10000002'' 2019,
                   year_record ''10000003'' 2021] = [2019, 2019, 2021] \<and>
   patents_per_year [year_record ''10000001'' 2019, year_record ''10000002'' 2019,
                     year_record ''10000003'' 2021] = Inr (Some 1)"
proof -
  have ok: "canonical_ok (year_record ''10000001'' 2019) \<and>
            canonical_ok (year_record ''10000002'' 2019) \<and>
            canonical_ok (year_record ''10000003'' 2021)"
    by code_simp
  then have h: "\<forall>c \<in> set [year_record ''10000001'' 2019, year_record ''10000002'' 2019,
                          year_record ''10000003'' 2021]. canonical_ok c"
    by simp
  have ys: "observed_years [year_record ''10000001'' 2019, year_record ''10000002'' 2019,
                            year_record ''10000003'' 2021] = [2019, 2019, 2021]"
    by code_simp
  from innovation_rate [OF h] ok ys show ?thesis
    by simp
qed

section \<open>Properties of the matcher and the adapters\<close>

lemma is_space_lower_char: "is_space (lower_char c) = is_space c"
proof (cases "65 \<le> (of_char c :: nat) \<and> (of_char c :: nat) \<le> 90")
  case True
  then have "(of_char (lower_char c) :: nat) = of_char c + 32"
    by (simp add: lower_char_def Let_def)
  with True show ?thesis by (simp add: is_space_def Let_def)
next
  case False
  then show ?thesis by (auto simp: lower_char_def Let_def)
qed

lemma split_ws_from_lower:
  "split_ws_from (map lower_char cur) (map lower_char s) = map (map lower_char) (split_ws_from cur s)"
  by (induction cur s rule: split_ws_from.induct) (simp_all add: is_space_lower_char)

lemma split_ws_lower: "split_ws (lower s) = map lower (split_ws s)"
  using split_ws_from_lower [of "[]" s] by (simp add: split_ws_def lower_def)

lemma name_targets_empty: "split_ws n = [] \<Longrightarrow> name_targets n = Inl IndexError"
  by (simp add: name_targets_def split_ws_lower)

lemma name_targets_tokens:
  "split_ws n \<noteq> [] \<Longrightarrow> name_targets n = Inr (lower (hd (split_ws n)), lower (last (split_ws n)))"
proof -
  assume ne: "split_ws n \<noteq> []"
  then obtain t ts where ts: "split_ws n = t # ts" by (cases "split_ws n") auto
  show ?thesis
  proof (cases ts)
    case Nil
    with ts show ?thesis by (simp add: name_targets_def split_ws_lower)
  next
    case (Cons u us)
    with ts show ?thesis by (simp add: name_targets_def split_ws_lower last_map)
  qed
qed

lemma name_targets_Inr:
  "name_targets n = Inr (tfirst, tlast) \<Longrightarrow>
   split_ws n \<noteq> [] \<and> tfirst = lower (hd (split_ws n)) \<and> tlast = lower (last (split_ws n))"
  using name_targets_empty [of n] name_targets_tokens [of n]
  by (cases "split_ws n = []") auto

lemma assignee_loop_iff:
  "assignee_loop n orgs \<longleftrightarrow>
     (\<exists>a \<in> set orgs. is_substring (lower n) (lower (get_str (assignee_organization a))))"
  by (induction orgs) (auto simp: Let_def)

lemma pv_inventor_loop_iff:
  "pv_inventor_loop tfirst tlast entries \<longleftrightarrow>
     (\<exists>e \<in> set entries. strip (lower (get_str (inventor_name_first e))) = tfirst \<and>
                         strip (lower (get_str (inventor_name_last e))) = tlast)"
  by (induction entries) (auto simp: Let_def)

lemma google_inventor_loop_iff:
  "google_inventor_loop tfirst tlast entries \<longleftrightarrow>
     (\<exists>e \<in> set entries. lower (get_str (inventor_name_first e)) = tfirst \<and>
                         lower (get_str (inventor_name_last e)) = tlast)"
  by (induction entries) (auto simp: Let_def)

lemma truthy_get_str: "truthy v \<longleftrightarrow> get_str v \<noteq> []"
  by (cases v) (simp_all add: truthy_def get_str_def)

lemma pv_keep_iff:
  "pv_keep a tfirst tlast p \<longleftrightarrow>
     (\<exists>e \<in> set (get_list (inventors p)).
         strip (lower (get_str (inventor_name_first e))) = tfirst \<and>
         strip (lower (get_str (inventor_name_last e))) = tlast) \<and>
     (truthy a \<longrightarrow>
        (\<exists>x \<in> set (get_list (assignees p)).
            is_substring (lower (get_str a)) (lower (get_str (assignee_organization x)))))"
  by (auto simp: pv_keep_def pv_inventor_loop_iff assignee_loop_iff)

lemma extract_iff:
  "extract_patent_from_result r tfirst tlast a \<noteq> None \<longleftrightarrow>
     title_elem_text r \<noteq> [] \<and>
     (truthy (href_number r) \<or> truthy (text_number r)) \<and>
     (\<exists>e \<in> set (case inventor_section_text r of None \<Rightarrow> [] | Some t \<Rightarrow> parse_inventors t).
         lower (get_str (inventor_name_first e)) = tfirst \<and>
         lower (get_str (inventor_name_last e)) = tlast) \<and>
     (truthy a \<longrightarrow>
        truthy (assignee_section_text r) \<and>
        is_substring (lower (get_str a)) (lower (get_str (assignee_section_text r))))"
  by (auto simp: extract_patent_from_result_def Let_def google_inventor_loop_iff assignee_loop_iff
        truthy_get_str)

lemma extract_Some:
  "extract_patent_from_result r tfirst tlast a = Some p \<Longrightarrow> truthy (patent_id p) \<and> truthy (patent_title p)"
  by (auto simp: extract_patent_from_result_def Let_def truthy_def split: if_splits)

lemma search_google_ids:
  "p \<in> set (snd (search_google_patents n a net)) \<Longrightarrow> truthy (patent_id p) \<and> truthy (patent_title p)"
  by (auto simp: search_google_patents_def List.map_filter_def dest: extract_Some
      split: option.splits sum.splits)

lemma search_by_inventor_ids:
  "snd (search_patents_by_inventor k n a net) = Inr ps \<Longrightarrow> p \<in> set ps \<Longrightarrow> truthy (patent_id p)"
  by (auto simp: search_patents_by_inventor_def split: prod.splits sum.splits dest: remove_duplicates_ids)

lemma search_view_empty:
  "split_ws n = [] \<Longrightarrow> search_patents_view n a net = ([], Inl IndexError)"
  by (simp add: search_patents_view_def)

lemma search_google_empty:
  "split_ws n = [] \<Longrightarrow> search_google_patents n a net = ([GooglePatentsGet (google_query n a)], [])"
  by (simp add: search_google_patents_def name_targets_empty split: option.splits)

lemma smith_no_match:
  "\<not> pv_inventor_loop ''ashok'' ''raj''
       [\<lparr>inventor_name_first = Some ''ashok'', inventor_name_last = Some ''smith''\<rparr>]"
  by code_simp

text \<open>
  Claim C6, as stated, fails: with an empty inventor name and no API key the Google
  adapter is invoked and issues its request, and the run ends with an empty result and
  no error.
\<close>

theorem empty_name_counterexample:
  "search_patents_by_inventor None [] None
     \<lparr>patentsview_reply = RequestFailed, google_reply = Some []\<rparr> =
     ([GooglePatentsGet ''inventor:\"\"''], Inr [])"
  by code_simp

text \<open>
  Claim C6, amended: no check of the inventor name precedes the adapters. For a name
  without any token (empty or blank) the Google adapter, when invoked, issues its request
  and returns the empty list without raising, and with no API key the search consists of
  that: the request is issued and the search returns the empty list without an error.
\<close>

theorem empty_name_search:
  "(split_ws inventor_name = [] \<longrightarrow>
      search_google_patents inventor_name assignee_name net =
        ([GooglePatentsGet (google_query inventor_name assignee_name)], [])) \<and>
   (split_ws inventor_name = [] \<and> \<not> truthy api_key \<longrightarrow>
      search_patents_by_inventor api_key inventor_name assignee_name net =
        ([GooglePatentsGet (google_query inventor_name assignee_name)], Inr []))"
proof (intro conjI impI)
  assume "split_ws inventor_name = []"
  then show "search_google_patents inventor_name assignee_name net =
        ([GooglePatentsGet (google_query inventor_name assignee_name)], [])"
    by (rule search_google_empty)
next
  assume "split_ws inventor_name = [] \<and> \<not> truthy api_key"
  then show "search_patents_by_inventor api_key inventor_name assignee_name net =
        ([GooglePatentsGet (google_query inventor_name assignee_name)], Inr [])"
    by (simp add: search_patents_by_inventor_def search_google_empty remove_duplicates_def)
qed

theorem empty_name_search_witness:
  "split_ws ''  '' = [] \<and> \<not> truthy None \<and>
   search_google_patents ''  '' None
     \<lparr>patentsview_reply = Patents [], google_reply = Some [sample_result]\<rparr> =
     ([GooglePatentsGet (google_query ''  '' None)], []) \<and>
   search_patents_by_inventor None ''  '' None
     \<lparr>patentsview_reply = Patents [], google_reply = Some [sample_result]\<rparr> =
     ([GooglePatentsGet (google_query ''  '' None)], Inr [])"
proof -
  have h1: "split_ws ''  '' = []"
    by code_simp
  have h2: "\<not> truthy None"
    by (simp add: truthy_def)
  from h1 h2
    empty_name_search [of "''  ''" None
      "\<lparr>patentsview_reply = Patents [], google_reply = Some [sample_result]\<rparr>" None]
  show ?thesis
    by simp
qed

text \<open>
  Claim C7, as stated, fails: the PatentsView matcher strips the names of the record
  before it compares them, so an entry with the first name \<open>Ashok\<close> followed by a
  space is accepted for the query \<open>Ashok Raj\<close>, although this first name is not equal
  to the target up to letter case.
\<close>

theorem stripped_name_counterexample:
  "name_targets ''Ashok Raj'' = Inr (''ashok'', ''raj'') \<and>
   pv_keep None ''ashok'' ''raj''
     (named_patent (Some ''10123456'') (Some ''Paging'') ''Ashok '' ''Raj'') \<and>
   \<not> spec_accepts ''ashok'' ''raj'' None
      (get_list (inventors (named_patent (Some ''10123456'') (Some ''Paging'') ''Ashok '' ''Raj'')))
      (get_list (assignees (named_patent (Some ''10123456'') (Some ''Paging'') ''Ashok '' ''Raj'')))"
  by code_simp

text \<open>
  Claim C7, amended: the targets are the lowercased first and last token of the query.
  The PatentsView matcher accepts a record iff (a) some inventor entry's first and last
  name, lowercased and stripped of surrounding whitespace, equal the targets, and (b)
  when the assignee filter is not empty, some organization string contains the filter
  up to letter case. The Google matcher accepts a result iff its title and its patent
  number are not empty and (a) and (b) hold, the names being lowercased only. An entry
  with the names \<open>ashok\<close> and \<open>smith\<close> alone is rejected for the query
  \<open>Ashok Raj\<close> whatever the filter and the assignees are.
\<close>

theorem matcher_accepts:
  assumes "name_targets inventor_name = Inr (target_first, target_last)"
  shows
    "(target_first = lower (hd (split_ws inventor_name)) \<and>
      target_last = lower (last (split_ws inventor_name))) \<and>
     (pv_keep assignee_name target_first target_last patent \<longleftrightarrow>
        (\<exists>e \<in> set (get_list (inventors patent)).
            strip (lower (get_str (inventor_name_first e))) = target_first \<and>
            strip (lower (get_str (inventor_name_last e))) = target_last) \<and>
        (truthy assignee_name \<longrightarrow>
           (\<exists>x \<in> set (get_list (assignees patent)).
               is_substring (lower (get_str assignee_name))
                 (lower (get_str (assignee_organization x)))))) \<and>
     (extract_patent_from_result result target_first target_last assignee_name \<noteq> None \<longleftrightarrow>
        title_elem_text result \<noteq> [] \<and>
        (truthy (href_number result) \<or> truthy (text_number result)) \<and>
        (\<exists>e \<in> set (case inventor_section_text result of None \<Rightarrow> [] | Some t \<Rightarrow> parse_inventors t).
            lower (get_str (inventor_name_first e)) = target_first \<and>
            lower (get_str (inventor_name_last e)) = target_last) \<and>
        (truthy assignee_name \<longrightarrow>
           truthy (assignee_section_text result) \<and>
           is_substring (lower (get_str assignee_name))
             (lower (get_str (assignee_section_text result))))) \<and>
     (name_targets ''Ashok Raj'' = Inr (''ashok'', ''raj'') \<and>
      \<not> pv_keep assignee_name ''ashok'' ''raj''
          (patent\<lparr>inventors := Some [\<lparr>inventor_name_first = Some ''ashok'',
                                          inventor_name_last = Some ''smith''\<rparr>]\<rparr>))"
proof (intro conjI)
  show "target_first = lower (hd (split_ws inventor_name))"
    using name_targets_Inr [OF assms] by simp
  show "target_last = lower (last (split_ws inventor_name))"
    using name_targets_Inr [OF assms] by simp
  show "pv_keep assignee_name target_first target_last patent \<longleftrightarrow>
        (\<exists>e \<in> set (get_list (inventors patent)).
            strip (lower (get_str (inventor_name_first e))) = target_first \<and>
            strip (lower (get_str (inventor_name_last e))) = target_last) \<and>
        (truthy assignee_name \<longrightarrow>
           (\<exists>x \<in> set (get_list (assignees patent)).
               is_substring (lower (get_str assignee_name))
                 (lower (get_str (assignee_organization x)))))"
    by (rule pv_keep_iff)
  show "extract_patent_from_result result target_first target_last assignee_name \<noteq> None \<longleftrightarrow>
        title_elem_text result \<noteq> [] \<and>
        (truthy (href_number result) \<or> truthy (text_number result)) \<and>
        (\<exists>e \<in> set (case inventor_section_text result of None \<Rightarrow> [] | Some t \<Rightarrow> parse_inventors t).
            lower (get_str (inventor_name_first e)) = target_first \<and>
            lower (get_str (inventor_name_last e)) = target_last) \<and>
        (truthy assignee_name \<longrightarrow>
           truthy (assignee_section_text result) \<and>
           is_substring (lower (get_str assignee_name))
             (lower (get_str (assignee_section_text result))))"
    by (rule extract_iff)
  show "name_targets ''Ashok Raj'' = Inr (''ashok'', ''raj'')"
    by code_simp
  show "\<not> pv_keep assignee_name ''ashok'' ''raj''
          (patent\<lparr>inventors := Some [\<lparr>inventor_name_first = Some ''ashok'',
                                          inventor_name_last = Some ''smith''\<rparr>]\<rparr>)"
    using smith_no_match by (simp add: pv_keep_def get_list_def)
qed

theorem matcher_accepts_witness:
  "name_targets ''Ashok Raj'' = Inr (''ashok'', ''raj'') \<and>
   ''ashok'' = lower (hd (split_ws ''Ashok Raj'')) \<and>
   ''raj'' = lower (last (split_ws ''Ashok Raj'')) \<and>
   pv_keep (Some ''intel'') ''ashok'' ''raj'' sample_found \<and>
   extract_patent_from_result sample_result ''ashok'' ''raj'' (Some ''intel'') = Some sample_found \<and>
   \<not> pv_keep (Some ''intel'') ''ashok'' ''raj''
       (sample_found\<lparr>inventors := Some [\<lparr>inventor_name_first = Some ''ashok'',
                                             inventor_name_last = Some ''smith''\<rparr>]\<rparr>)"
proof -
  have h: "name_targets ''Ashok Raj'' = Inr (''ashok'', ''raj'')"
    by code_simp
  have k: "pv_keep (Some ''intel'') ''ashok'' ''raj'' sample_found"
    by code_simp
  have e: "extract_patent_from_result sample_result ''ashok'' ''raj'' (Some ''intel'') = Some sample_found"
    by code_simp
  note m = matcher_accepts [OF h, of "Some ''intel''" sample_found sample_result]
  from m have a1: "''ashok'' = lower (hd (split_ws ''Ashok Raj''))"
    by (elim conjE)
  from m have a2: "''raj'' = lower (last (split_ws ''Ashok Raj''))"
    by (elim conjE)
  from m have n: "\<not> pv_keep (Some ''intel'') ''ashok'' ''raj''
       (sample_found\<lparr>inventors := Some [\<lparr>inventor_name_first = Some ''ashok'',
                                             inventor_name_last = Some ''smith''\<rparr>]\<rparr>)"
    by (elim conjE)
  show ?thesis
    by (intro conjI) (fact h a1 a2 k e n)+
qed

text \<open>
  Claim C8: the code departs from the claim on the PatentsView path. A record of the
  reply that has an identifier and a matching inventor but no title passes the filter
  loop of \<open>_search_patents_view\<close> and the deduplicator, since only
  \<open>_extract_patent_from_result\<close> tests the title, and the normalizer turns it into a
  canonical record whose title is the empty string.
\<close>

theorem untitled_record_kept:
  "name_targets ''Ashok Raj'' = Inr (''ashok'', ''raj'') \<and>
   patent_title (named_patent (Some ''10123456'') None ''Ashok'' ''Raj'') = None \<and>
   remove_duplicates
     (filter (pv_keep None ''ashok'' ''raj'')
        [named_patent (Some ''10123456'') None ''Ashok'' ''Raj'']) =
     [named_patent (Some ''10123456'') None ''Ashok'' ''Raj''] \<and>
   format_for_linkedin [named_patent (Some ''10123456'') None ''Ashok'' ''Raj''] =
     Inr [[(''title'', PStr []),
           (''summary'', PStr []),
           (''number'', PStr ''10123456''),
           (''status'', PStr ''granted''),
           (''office'', PDict [(''name'', PStr ''United States Patent and Trademark Office (USPTO)'')]),
           (''inventors'', PList [PDict [(''name'', PStr ''Ashok Raj'')]]),
           (''date'', PDict [(''year'', PNone), (''month'', PNone), (''day'', PNone)]),
           (''url'', PStr ''https://patents.google.com/patent/US10123456'')]]"
  by code_simp

text \<open>The same record through the whole search, with an API key and a failing Google
  request.\<close>

lemma untitled_record_search:
  "search_patents_by_inventor (Some ''key'') ''Ashok Raj'' None
     \<lparr>patentsview_reply = Patents [named_patent (Some ''10123456'') None ''Ashok'' ''Raj''],
      google_reply = None\<rparr> =
     ([PatentsViewGet ''Ashok'' ''Raj'' None, GooglePatentsGet ''inventor:\"Ashok Raj\"''],
      Inr [named_patent (Some ''10123456'') None ''Ashok'' ''Raj''])"
  by code_simp

text \<open>An exception that leaves the PatentsView adapter leaves the search: no Google
  request follows.\<close>

lemma escaping_exception_search:
  "search_patents_by_inventor (Some ''key'') ''Ashok Raj'' None
     \<lparr>patentsview_reply = Escapes AttributeError, google_reply = Some []\<rparr> =
     ([PatentsViewGet ''Ashok'' ''Raj'' None], Inl AttributeError)"
  by code_simp

end
